theory Spec2Isabelle
  imports Main
begin

section \<open>The stabilization detector (the loading loop of \<open>scrape_luma_event\<close>)\<close>

text \<open>
  The loop of \<open>main.py\<close> that scrolls the guest list keeps three local variables:
  \<^verbatim>\<open>
  current_participant_count = 0
  last_participant_count = 0
  max_attempts = 3
  attempts = 0
  while attempts < max_attempts:
      current_participant_count = current_participants.count()
      ... scroll to the end, wait five seconds ...
      if current_participant_count == last_participant_count:
          attempts += 1
      else:
          attempts = 0
      last_participant_count = current_participant_count
  print(f"Total participants loaded: {current_participant_count}")
  \<close>
  The variables are the fields of the state record; Python's integers are unbounded, and an
  element count is never negative, so they are natural numbers.
\<close>

record stab_state =
  current_participant_count :: nat
  last_participant_count :: nat
  attempts :: nat

definition max_attempts :: nat where
  "max_attempts = 3"

definition initial_state :: stab_state where
  "initial_state =
     \<lparr>current_participant_count = 0, last_participant_count = 0, attempts = 0\<rparr>"

text \<open>One pass through the loop body, given the count \<open>c\<close> that the page reports.\<close>

definition stabilization_round :: "nat \<Rightarrow> stab_state \<Rightarrow> stab_state" where
  "stabilization_round c st =
     \<lparr>current_participant_count = c,
      last_participant_count = c,
      attempts = (if c = last_participant_count st then attempts st + 1 else 0)\<rparr>"

text \<open>
  The loop itself. The page is a live source of counts: \<open>sig n\<close> is the count it reports in
  round \<open>n\<close> (rounds are numbered from 0). The loop has no bound, so it is a partial function:
  \<open>None\<close> is the run that never leaves the loop. On leaving it the model returns the number of
  rounds that were run and the count that the program prints.
\<close>

partial_function (option) loading_loop ::
  "(nat \<Rightarrow> nat) \<Rightarrow> nat \<Rightarrow> stab_state \<Rightarrow> (nat \<times> nat) option" where
  "loading_loop sig n st =
     (if attempts st < max_attempts
      then loading_loop sig (Suc n) (stabilization_round (sig n) st)
      else Some (n, current_participant_count st))"

text \<open>
  The same loop driven by a mock source that holds finitely many readings. When the readings
  are used up while the loop still asks for one, the outcome records the round and the state
  in which the loop is waiting.
\<close>

datatype mock_outcome =
  Terminated nat nat
  | AwaitsReading nat stab_state

fun loading_loop_mock :: "nat list \<Rightarrow> nat \<Rightarrow> stab_state \<Rightarrow> mock_outcome" where
  "loading_loop_mock [] n st =
     (if attempts st < max_attempts then AwaitsReading n st
      else Terminated n (current_participant_count st))"
| "loading_loop_mock (c # cs) n st =
     (if attempts st < max_attempts
      then loading_loop_mock cs (Suc n) (stabilization_round c st)
      else Terminated n (current_participant_count st))"

text \<open>
  Two functions used to state properties of the loop: the state after \<open>n\<close> rounds when no
  round is refused by the guard, and the reading of the round before (0 before the first
  round, the initial value of \<open>last_participant_count\<close>).
\<close>

primrec state_after :: "(nat \<Rightarrow> nat) \<Rightarrow> nat \<Rightarrow> stab_state" where
  "state_after sig 0 = initial_state"
| "state_after sig (Suc n) = stabilization_round (sig n) (state_after sig n)"

definition previous_reading :: "(nat \<Rightarrow> nat) \<Rightarrow> nat \<Rightarrow> nat" where
  "previous_reading sig n = (case n of 0 \<Rightarrow> 0 | Suc m \<Rightarrow> sig m)"

definition unchanged :: "(nat \<Rightarrow> nat) \<Rightarrow> nat \<Rightarrow> bool" where
  "unchanged sig n = (sig n = previous_reading sig n)"

definition three_unchanged :: "(nat \<Rightarrow> nat) \<Rightarrow> nat \<Rightarrow> bool" where
  "three_unchanged sig k =
     (unchanged sig k \<and> unchanged sig (Suc k) \<and> unchanged sig (Suc (Suc k)))"

text \<open>
  Round \<open>r\<close> is the first one, counted from round \<open>n\<close>, at which the guard of the loop is
  false.
\<close>

definition first_stop :: "(nat \<Rightarrow> nat) \<Rightarrow> nat \<Rightarrow> nat \<Rightarrow> bool" where
  "first_stop sig n r =
     (n \<le> r \<and> \<not> attempts (state_after sig r) < max_attempts \<and>
      (\<forall>m. n \<le> m \<and> m < r \<longrightarrow> attempts (state_after sig m) < max_attempts))"

section \<open>Exceptions, names and other text\<close>

text \<open>
  The exceptions that the run can meet. \<open>IndexError\<close> and \<open>KeyError\<close> come from the
  program's own indexing, \<open>DriverError\<close> stands for any error raised by the browser driver
  (its message is kept); these are instances of Python's class \<open>Exception\<close>.
  \<open>KeyboardInterrupt\<close> and \<open>SystemExit\<close> derive from \<open>BaseException\<close> only.
\<close>

datatype py_exception =
  IndexError
  | KeyError
  | DriverError string
  | KeyboardInterrupt
  | SystemExit

fun is_Exception :: "py_exception \<Rightarrow> bool" where
  "is_Exception IndexError = True"
| "is_Exception KeyError = True"
| "is_Exception (DriverError m) = True"
| "is_Exception KeyboardInterrupt = False"
| "is_Exception SystemExit = False"

fun exception_str :: "py_exception \<Rightarrow> string" where
  "exception_str IndexError = ''list index out of range''"
| "exception_str KeyError = [CHR 0x27] @ ''linkedin'' @ [CHR 0x27]"
| "exception_str (DriverError m) = m"
| "exception_str KeyboardInterrupt = []"
| "exception_str SystemExit = []"

text \<open>
  A display name is inspected character by character (whitespace, letter case), so it is
  modelled as a Python \<open>str\<close> is: a list of Unicode code points. All other text (links, the
  data of the event, messages) is only compared with the empty text, joined and carried
  along; it is a string. \<open>text_of\<close> gives the code points of a string written in this
  theory.
\<close>

type_synonym codepoint = nat

definition text_of :: "string \<Rightarrow> codepoint list" where
  "text_of s = map of_char s"

text \<open>
  The code points that \<open>str.split()\<close> and \<open>str.isspace()\<close> treat as whitespace: the
  controls \<open>0x09\<close> to \<open>0x0D\<close> and \<open>0x1C\<close> to \<open>0x1F\<close>, the space, next line
  \<open>0x85\<close>, the no-break space \<open>0xA0\<close>, and the Unicode space and line separators.
\<close>

abbreviation whitespace_codepoints :: "codepoint set" where
  "whitespace_codepoints \<equiv>
     {0x09, 0x0A, 0x0B, 0x0C, 0x0D, 0x1C, 0x1D, 0x1E, 0x1F, 0x20, 0x85, 0xA0, 0x1680,
      0x2000, 0x2001, 0x2002, 0x2003, 0x2004, 0x2005, 0x2006, 0x2007, 0x2008, 0x2009, 0x200A,
      0x2028, 0x2029, 0x202F, 0x205F, 0x3000}"

definition isspace :: "codepoint \<Rightarrow> bool" where
  "isspace c \<longleftrightarrow>
     (0x09 \<le> c \<and> c \<le> 0x0D) \<or> (0x1C \<le> c \<and> c \<le> 0x20) \<or> c = 0x85 \<or> c = 0xA0 \<or>
     c = 0x1680 \<or> (0x2000 \<le> c \<and> c \<le> 0x200A) \<or> c = 0x2028 \<or> c = 0x2029 \<or>
     c = 0x202F \<or> c = 0x205F \<or> c = 0x3000"

text \<open>
  The case mappings of \<open>str.capitalize()\<close> come from the Unicode database of the Python
  runtime. For ASCII they are fixed: the letters \<open>a\<close> to \<open>z\<close> and \<open>A\<close> to \<open>Z\<close> are
  exchanged and nothing else changes. Above ASCII the database is a parameter: the title
  case of a code point (which may be several code points), and the lower case of the code
  point at a position of a text (which may depend on its neighbours, as for the Greek
  capital sigma).
\<close>

record unicode_db =
  title_full :: "codepoint \<Rightarrow> codepoint list"
  lower_full :: "codepoint list \<Rightarrow> nat \<Rightarrow> codepoint list"

definition to_title :: "unicode_db \<Rightarrow> codepoint \<Rightarrow> codepoint list" where
  "to_title db c =
     (if c < 128 then [if 97 \<le> c \<and> c \<le> 122 then c - 32 else c] else title_full db c)"

definition to_lower :: "unicode_db \<Rightarrow> codepoint list \<Rightarrow> nat \<Rightarrow> codepoint \<Rightarrow> codepoint list" where
  "to_lower db s i c =
     (if c < 128 then [if 65 \<le> c \<and> c \<le> 90 then c + 32 else c] else lower_full db s i)"

text \<open>The lower case of the code points \<open>cs\<close> that stand in the text \<open>s\<close> from position \<open>i\<close> on.\<close>

fun lower_from :: "unicode_db \<Rightarrow> codepoint list \<Rightarrow> nat \<Rightarrow> codepoint list \<Rightarrow> codepoint list" where
  "lower_from db s i [] = []"
| "lower_from db s i (c # cs) = to_lower db s i c @ lower_from db s (Suc i) cs"

text \<open>\<open>str.capitalize()\<close>: the first character in title case, all others in lower case.\<close>

definition capitalize :: "unicode_db \<Rightarrow> codepoint list \<Rightarrow> codepoint list" where
  "capitalize db s =
     (case s of [] \<Rightarrow> [] | c # cs \<Rightarrow> to_title db c @ lower_from db s 1 cs)"

text \<open>
  \<open>str.split(maxsplit=k)\<close> without a separator: up to \<open>k\<close> times, skip whitespace and cut
  the token that follows; whatever is left after the last cut, with its leading whitespace
  removed, is the final item when it is not empty.
\<close>

fun split_whitespace :: "nat \<Rightarrow> codepoint list \<Rightarrow> codepoint list list" where
  "split_whitespace 0 s =
     (let r = dropWhile isspace s in if r = [] then [] else [r])"
| "split_whitespace (Suc k) s =
     (let r = dropWhile isspace s
      in if r = [] then []
         else takeWhile (\<lambda>c. \<not> isspace c) r
                # split_whitespace k (dropWhile (\<lambda>c. \<not> isspace c) r))"

section \<open>The record extractor\<close>

text \<open>
  A rendered guest entry as the page driver shows it: the text of its name element and its
  \<open>href\<close> attribute (\<open>None\<close> when the attribute is missing). A participant is the
  dictionary that the program builds; the key \<open>linkedin\<close> is added later, so its field is
  optional.
\<close>

record guest_entry =
  name_text :: "codepoint list"
  href :: "string option"

record participant =
  first_name :: "codepoint list"
  last_name :: "codepoint list"
  profile_url :: string
  linkedin :: "string option"

text \<open>
  \<^verbatim>\<open>
  name_parts = full_name.split(maxsplit=1)
  first_name = name_parts[0].capitalize()
  last_name = name_parts[1].capitalize() if len(name_parts) > 1 else ""
  \<close>
\<close>

definition parse_name ::
  "unicode_db \<Rightarrow> codepoint list \<Rightarrow> py_exception + codepoint list \<times> codepoint list" where
  "parse_name db full_name =
     (case split_whitespace 1 full_name of
        [] \<Rightarrow> Inl IndexError
      | p # ps \<Rightarrow>
          Inr (capitalize db p, (case ps of [] \<Rightarrow> [] | q # qs \<Rightarrow> capitalize db q)))"

text \<open>
  The body of the first \<open>for\<close> loop, for one entry: \<open>Inr None\<close> is \<open>continue\<close> (no
  participant appended), \<open>Inr (Some p)\<close> appends \<open>p\<close>, \<open>Inl e\<close> raises \<open>e\<close>. The
  code point of \<open>@\<close> is 64.
\<close>

definition extract_entry :: "unicode_db \<Rightarrow> guest_entry \<Rightarrow> py_exception + participant option" where
  "extract_entry db element =
     (let full_name = name_text element
      in if 64 \<in> set full_name then Inr None
         else (case parse_name db full_name of
                 Inl e \<Rightarrow> Inl e
               | Inr (fn, ln) \<Rightarrow>
                   (case href element of
                      None \<Rightarrow> Inr None
                    | Some h \<Rightarrow>
                        if h = [] then Inr None
                        else Inr (Some \<lparr>first_name = fn, last_name = ln,
                                       profile_url = ''https://lu.ma'' @ h,
                                       linkedin = None\<rparr>))))"

fun collect_participants ::
  "unicode_db \<Rightarrow> guest_entry list \<Rightarrow> py_exception + participant list" where
  "collect_participants db [] = Inr []"
| "collect_participants db (element # elements) =
     (case extract_entry db element of
        Inl e \<Rightarrow> Inl e
      | Inr None \<Rightarrow> collect_participants db elements
      | Inr (Some p) \<Rightarrow>
          (case collect_participants db elements of
             Inl e \<Rightarrow> Inl e
           | Inr ps \<Rightarrow> Inr (p # ps)))"

section \<open>The profile resolver\<close>

text \<open>
  What a profile page shows to the query for the first LinkedIn link: no such element
  (\<open>count() == 0\<close>), or an element whose \<open>href\<close> attribute is read (\<open>None\<close> when the
  attribute is missing). Visiting a page can raise instead.
\<close>

datatype linkedin_lookup =
  NoLink
  | LinkHref "string option"

definition resolve_participant ::
  "(string \<Rightarrow> py_exception + linkedin_lookup) \<Rightarrow> participant \<Rightarrow> py_exception + participant"
  where
  "resolve_participant visit p =
     (case visit (profile_url p) of
        Inl e \<Rightarrow> Inl e
      | Inr NoLink \<Rightarrow> Inr p
      | Inr (LinkHref None) \<Rightarrow> Inr p
      | Inr (LinkHref (Some linkedin_url)) \<Rightarrow>
          if linkedin_url = [] then Inr p else Inr (p\<lparr>linkedin := Some linkedin_url\<rparr>))"

fun resolve_participants ::
  "(string \<Rightarrow> py_exception + linkedin_lookup) \<Rightarrow> participant list
     \<Rightarrow> py_exception + participant list" where
  "resolve_participants visit [] = Inr []"
| "resolve_participants visit (p # ps) =
     (case resolve_participant visit p of
        Inl e \<Rightarrow> Inl e
      | Inr p' \<Rightarrow>
          (case resolve_participants visit ps of
             Inl e \<Rightarrow> Inl e
           | Inr ps' \<Rightarrow> Inr (p' # ps')))"

section \<open>The export\<close>

record event_metadata =
  event_title :: string
  event_date :: string
  event_time :: string
  event_place :: string
  event_host :: string

record csv_row =
  row_first_name :: "codepoint list"
  row_last_name :: "codepoint list"
  row_linkedin :: string
  custom_att_1 :: string
  custom_att_2 :: string
  custom_att_3 :: string
  custom_att_4 :: string
  custom_att_5 :: string
  custom_att_6 :: string

text \<open>\<^verbatim>\<open>participants = [p for p in participants if "linkedin" in p]\<close>\<close>

definition filter_linkedin :: "participant list \<Rightarrow> participant list" where
  "filter_linkedin ps = filter (\<lambda>p. linkedin p \<noteq> None) ps"

text \<open>
  The row of one participant; \<open>participant["linkedin"]\<close> raises \<open>KeyError\<close> when the key is
  missing.
\<close>

definition participant_data :: "event_metadata \<Rightarrow> participant \<Rightarrow> py_exception + csv_row" where
  "participant_data md p =
     (case linkedin p of
        None \<Rightarrow> Inl KeyError
      | Some u \<Rightarrow>
          Inr \<lparr>row_first_name = first_name p, row_last_name = last_name p, row_linkedin = u,
               custom_att_1 = event_title md, custom_att_2 = event_date md,
               custom_att_3 = event_time md, custom_att_4 = event_place md,
               custom_att_5 = event_host md, custom_att_6 = ''Luma''\<rparr>)"

text \<open>
  The writing loop: the rows written, in order, and the exception that stopped the loop, if
  one did.
\<close>

fun write_rows ::
  "event_metadata \<Rightarrow> participant list \<Rightarrow> csv_row list \<times> py_exception option" where
  "write_rows md [] = ([], None)"
| "write_rows md (p # ps) =
     (case participant_data md p of
        Inl e \<Rightarrow> ([], Some e)
      | Inr row \<Rightarrow> (case write_rows md ps of (rows, e) \<Rightarrow> (row # rows, e)))"

section \<open>The run and its top-level guard\<close>

text \<open>
  What the outside world gives to one run: the steps up to the opening of the guest list
  (login, navigation, reading the event's title, date, time, place and host) either raise or
  yield the metadata; the guest list reports a count in every round of the loading loop and
  then shows its entries; every profile page answers the LinkedIn query or raises; closing
  the browser may raise. The Unicode database of the Python runtime that runs the program
  is part of it.
\<close>

record page_env =
  unicode_tables :: unicode_db
  event_page :: "py_exception + event_metadata"
  count_signal :: "nat \<Rightarrow> nat"
  guest_entries :: "guest_entry list"
  profile_page :: "string \<Rightarrow> py_exception + linkedin_lookup"
  browser_close :: "py_exception option"

text \<open>
  How a call ends and what it leaves behind: the value returned or the exception raised, the
  rows of \<open>luma_participants.csv\<close> (\<open>None\<close> when the run did not open the file), and the
  line that the guard printed, if it printed one.
\<close>

datatype 'a completion =
  Returned 'a
  | Raised py_exception

record 'a call_outcome =
  completion :: "'a completion"
  csv_file :: "csv_row list option"
  error_line :: "string option"

text \<open>
  The function body, in two parts. The first part is everything up to the export: the event
  page, the loading loop, the extraction of the entries and the visits of the profile pages.
  \<open>None\<close> is the run that stays in the loading loop for ever, \<open>Some (Inl e)\<close> the run in
  which \<open>e\<close> is raised before the export.
\<close>

definition before_export ::
  "page_env \<Rightarrow> (py_exception + event_metadata \<times> participant list) option" where
  "before_export env =
     (case event_page env of
        Inl e \<Rightarrow> Some (Inl e)
      | Inr md \<Rightarrow>
          (case loading_loop (count_signal env) 0 initial_state of
             None \<Rightarrow> None
           | Some rc \<Rightarrow>
               Some
                (case collect_participants (unicode_tables env) (guest_entries env) of
                   Inl e \<Rightarrow> Inl e
                 | Inr ps \<Rightarrow>
                     (case resolve_participants (profile_page env) ps of
                        Inl e \<Rightarrow> Inl e
                      | Inr ps' \<Rightarrow> Inr (md, ps')))))"

text \<open>
  The second part filters the participants, opens the file and writes the rows, and closes
  the browser.
\<close>

definition export_and_close ::
  "page_env \<Rightarrow> event_metadata \<Rightarrow> participant list \<Rightarrow> unit call_outcome" where
  "export_and_close env md ps =
     (case write_rows md (filter_linkedin ps) of
        (rows, Some e) \<Rightarrow>
          \<lparr>completion = Raised e, csv_file = Some rows, error_line = None\<rparr>
      | (rows, None) \<Rightarrow>
          (case browser_close env of
             Some e \<Rightarrow> \<lparr>completion = Raised e, csv_file = Some rows, error_line = None\<rparr>
           | None \<Rightarrow> \<lparr>completion = Returned (), csv_file = Some rows, error_line = None\<rparr>))"

definition scrape_luma_event_body :: "page_env \<Rightarrow> unit call_outcome option" where
  "scrape_luma_event_body env =
     (case before_export env of
        None \<Rightarrow> None
      | Some (Inl e) \<Rightarrow> Some \<lparr>completion = Raised e, csv_file = None, error_line = None\<rparr>
      | Some (Inr (md, ps)) \<Rightarrow> Some (export_and_close env md ps))"

text \<open>
  \<^verbatim>\<open>
  def wrapper(*func_args, **func_kwargs):
      try:
          return func(*func_args, **func_kwargs)
      except Exception as e:
          print(f"An error occurred: {str(e)}")
          return None
  \<close>
  The wrapper's value is \<open>Some v\<close> when the function returned \<open>v\<close> and \<open>None\<close> on the
  \<open>except\<close> path.
\<close>

definition handle_exceptions ::
  "('a \<Rightarrow> 'b call_outcome option) \<Rightarrow> 'a \<Rightarrow> 'b option call_outcome option" where
  "handle_exceptions func args =
     (case func args of
        None \<Rightarrow> None
      | Some out \<Rightarrow>
          Some
           (case completion out of
              Returned v \<Rightarrow>
                \<lparr>completion = Returned (Some v), csv_file = csv_file out,
                 error_line = error_line out\<rparr>
            | Raised e \<Rightarrow>
                if is_Exception e
                then \<lparr>completion = Returned None, csv_file = csv_file out,
                      error_line = Some (''An error occurred: '' @ exception_str e)\<rparr>
                else \<lparr>completion = Raised e, csv_file = csv_file out,
                      error_line = error_line out\<rparr>))"

definition scrape_luma_event :: "page_env \<Rightarrow> unit option call_outcome option" where
  "scrape_luma_event = handle_exceptions scrape_luma_event_body"

section \<open>A sample run\<close>

text \<open>
  A small environment on which the run is evaluated below: an event page, a guest list that
  shows two guests in every round, three rendered entries, and profile pages of which only
  the first carries a LinkedIn link. Its Unicode tables are those of the code points below
  256 (the micro sign, the sharp s and the letters with accents), and leave every other
  code point as it is; they are used on such names only.
\<close>

definition latin1_tables :: unicode_db where
  "latin1_tables =
     \<lparr>title_full =
        (\<lambda>c. if c = 0xB5 then [0x39C]
             else if c = 0xDF then [0x53, 0x73]
             else if c = 0xFF then [0x178]
             else if 0xE0 \<le> c \<and> c \<le> 0xFE \<and> c \<noteq> 0xF7 then [c - 32]
             else [c]),
      lower_full =
        (\<lambda>s i. case drop i s of
                  [] \<Rightarrow> []
                | c # cs \<Rightarrow> if 0xC0 \<le> c \<and> c \<le> 0xDE \<and> c \<noteq> 0xD7 then [c + 32] else [c])\<rparr>"

definition sample_metadata :: event_metadata where
  "sample_metadata =
     \<lparr>event_title = ''AI for Developers'', event_date = ''Thursday, March 6'',
      event_time = ''6:00 PM - 8:00 PM'', event_place = ''Online'',
      event_host = ''GitAuto''\<rparr>"

definition sample_profile_page :: "string \<Rightarrow> py_exception + linkedin_lookup" where
  "sample_profile_page u =
     (if u = ''https://lu.ma/user/usr-1''
      then Inr (LinkHref (Some ''https://www.linkedin.com/in/jane-doe''))
      else Inr NoLink)"

definition sample_env :: page_env where
  "sample_env =
     \<lparr>unicode_tables = latin1_tables,
      event_page = Inr sample_metadata,
      count_signal = (\<lambda>n. 2),
      guest_entries =
        [\<lparr>name_text = text_of ''Jane Doe'', href = Some ''/user/usr-1''\<rparr>,
         \<lparr>name_text = text_of ''user@example.com'', href = Some ''/user/usr-2''\<rparr>,
         \<lparr>name_text = text_of ''Madonna'', href = Some ''/user/usr-3''\<rparr>],
      profile_page = sample_profile_page,
      browser_close = None\<rparr>"

section \<open>Properties of the stabilization detector\<close>

lemma last_state_after:
  "last_participant_count (state_after sig n) = previous_reading sig n"
  by (cases n) (simp_all add: initial_state_def stabilization_round_def previous_reading_def)

lemma current_state_after:
  "current_participant_count (state_after sig n) = previous_reading sig n"
  by (cases n) (simp_all add: initial_state_def stabilization_round_def previous_reading_def)

lemma attempts_state_after_Suc:
  "attempts (state_after sig (Suc n)) =
     (if unchanged sig n then Suc (attempts (state_after sig n)) else 0)"
  by (simp add: stabilization_round_def last_state_after unchanged_def)

lemma attempts_state_after_0: "attempts (state_after sig 0) = 0"
  by (simp add: initial_state_def)

lemma state_after_0: "state_after sig 0 = initial_state"
  by simp

lemma state_after_Suc:
  "state_after sig (Suc n) = stabilization_round (sig n) (state_after sig n)"
  by simp

declare state_after.simps [simp del]

lemma max_attempts_Suc: "max_attempts = Suc (Suc (Suc 0))"
  by (simp add: max_attempts_def)

lemma loading_loop_continue:
  "attempts st < max_attempts \<Longrightarrow>
   loading_loop sig n st = loading_loop sig (Suc n) (stabilization_round (sig n) st)"
  by (subst loading_loop.simps) simp

lemma loading_loop_stop:
  "\<not> attempts st < max_attempts \<Longrightarrow>
   loading_loop sig n st = Some (n, current_participant_count st)"
  by (subst loading_loop.simps) simp

text \<open>Rounds in which the guard holds are passed through.\<close>

lemma loading_loop_skip:
  "n \<le> n' \<Longrightarrow> \<forall>m. n \<le> m \<and> m < n' \<longrightarrow> attempts (state_after sig m) < max_attempts \<Longrightarrow>
   loading_loop sig n (state_after sig n) = loading_loop sig n' (state_after sig n')"
proof (induction n' rule: dec_induct)
  case base
  show ?case by simp
next
  case (step k)
  have "loading_loop sig n (state_after sig n) = loading_loop sig k (state_after sig k)"
    using step by simp
  also have "\<dots> = loading_loop sig (Suc k) (state_after sig (Suc k))"
    using step.hyps step.prems by (simp add: loading_loop_continue state_after_Suc)
  finally show ?case .
qed

lemma first_stop_here:
  "\<not> attempts (state_after sig n) < max_attempts \<Longrightarrow> first_stop sig n n"
  by (simp add: first_stop_def)

lemma first_stop_later:
  "attempts (state_after sig n) < max_attempts \<Longrightarrow> first_stop sig (Suc n) r \<Longrightarrow>
   first_stop sig n r"
  unfolding first_stop_def
  by (metis Suc_leD Suc_leI le_neq_implies_less)

text \<open>
  Whenever the loop returns, it returns at the first round whose guard is false: by the
  induction rule of the partial function.
\<close>

lemma loading_loop_sound:
  assumes "loading_loop sig n st = Some rc"
  shows "st = state_after sig n \<longrightarrow>
         first_stop sig n (fst rc) \<and>
         snd rc = current_participant_count (state_after sig (fst rc))"
proof (rule loading_loop.raw_induct
    [where P = "\<lambda>sig n st rc. st = state_after sig n \<longrightarrow>
         first_stop sig n (fst rc) \<and>
         snd rc = current_participant_count (state_after sig (fst rc))", OF _ assms])
  fix loop :: "(nat \<Rightarrow> nat) \<Rightarrow> nat \<Rightarrow> stab_state \<Rightarrow> (nat \<times> nat) option"
  fix sig n st rc
  assume ih: "\<And>sig n st rc. loop sig n st = Some rc \<Longrightarrow>
         st = state_after sig n \<longrightarrow>
         first_stop sig n (fst rc) \<and>
         snd rc = current_participant_count (state_after sig (fst rc))"
  assume body: "(if attempts st < max_attempts
      then loop sig (Suc n) (stabilization_round (sig n) st)
      else Some (n, current_participant_count st)) = Some rc"
  show "st = state_after sig n \<longrightarrow>
         first_stop sig n (fst rc) \<and>
         snd rc = current_participant_count (state_after sig (fst rc))"
  proof
    assume st: "st = state_after sig n"
    show "first_stop sig n (fst rc) \<and>
         snd rc = current_participant_count (state_after sig (fst rc))"
    proof (cases "attempts st < max_attempts")
      case True
      with body have "loop sig (Suc n) (stabilization_round (sig n) st) = Some rc" by simp
      from ih[OF this] st state_after_Suc[of sig n]
      have "first_stop sig (Suc n) (fst rc) \<and>
         snd rc = current_participant_count (state_after sig (fst rc))"
        by simp
      then show ?thesis using True st first_stop_later by blast
    next
      case False
      with body have "rc = (n, current_participant_count st)" by simp
      then show ?thesis using False st by (simp add: first_stop_here)
    qed
  qed
qed

lemma loading_loop_complete:
  "first_stop sig n r \<Longrightarrow>
   loading_loop sig n (state_after sig n) =
     Some (r, current_participant_count (state_after sig r))"
  unfolding first_stop_def
  using loading_loop_skip[of n r sig] loading_loop_stop[of "state_after sig r" sig r]
  by simp

lemma loading_loop_iff:
  "loading_loop sig 0 initial_state = Some (r, c) \<longleftrightarrow>
   first_stop sig 0 r \<and> c = current_participant_count (state_after sig r)"
  using loading_loop_sound[of sig 0 initial_state "(r, c)"] loading_loop_complete[of sig 0 r]
  by (auto simp: state_after_0)

lemma attempts_Suc_ge:
  "Suc j \<le> attempts (state_after sig (Suc n)) \<longleftrightarrow>
   unchanged sig n \<and> j \<le> attempts (state_after sig n)"
  by (simp add: attempts_state_after_Suc)

lemma attempts_ge_three:
  "max_attempts \<le> attempts (state_after sig m) \<longleftrightarrow>
   (\<exists>k. m = Suc (Suc (Suc k)) \<and> three_unchanged sig k)"
proof (cases m)
  case 0
  then show ?thesis by (simp add: attempts_state_after_0 max_attempts_def)
next
  case m1: (Suc m1)
  show ?thesis
  proof (cases m1)
    case 0
    then show ?thesis using m1
      by (simp add: attempts_state_after_Suc attempts_state_after_0 max_attempts_def)
  next
    case m2: (Suc m2)
    show ?thesis
    proof (cases m2)
      case 0
      then show ?thesis using m1 m2
        by (simp add: attempts_state_after_Suc attempts_state_after_0 max_attempts_def)
    next
      case (Suc k)
      have "max_attempts \<le> attempts (state_after sig (Suc (Suc (Suc k)))) \<longleftrightarrow>
            three_unchanged sig k"
        unfolding max_attempts_Suc attempts_Suc_ge three_unchanged_def by auto
      then show ?thesis using m1 m2 Suc by simp
    qed
  qed
qed

lemma first_stop_exists:
  assumes "\<not> attempts (state_after sig m) < max_attempts"
  shows "\<exists>r. first_stop sig 0 r"
proof -
  define r where "r = (LEAST r. \<not> attempts (state_after sig r) < max_attempts)"
  have "\<not> attempts (state_after sig r) < max_attempts"
    unfolding r_def using assms by (rule LeastI)
  moreover have "attempts (state_after sig q) < max_attempts" if "q < r" for q
    using that not_less_Least unfolding r_def by blast
  ultimately show ?thesis unfolding first_stop_def by auto
qed

lemma first_stop_attempts:
  assumes "first_stop sig 0 r"
  shows "attempts (state_after sig r) = max_attempts"
proof (cases r)
  case 0
  with assms show ?thesis
    by (simp add: first_stop_def attempts_state_after_0 max_attempts_def)
next
  case (Suc q)
  with assms have "attempts (state_after sig q) < max_attempts"
    and "\<not> attempts (state_after sig (Suc q)) < max_attempts"
    by (simp_all add: first_stop_def)
  then show ?thesis using Suc
    by (simp add: attempts_state_after_Suc split: if_splits)
qed

lemma first_stop_0_iff:
  "first_stop sig 0 r \<longleftrightarrow>
   attempts (state_after sig r) = 3 \<and> (\<forall>m<r. attempts (state_after sig m) < 3)"
  using first_stop_attempts[of sig r]
  by (auto simp: first_stop_def max_attempts_def)

lemma loading_loop_terminates_iff:
  "(\<exists>rc. loading_loop sig 0 initial_state = Some rc) \<longleftrightarrow> (\<exists>k. three_unchanged sig k)"
proof
  assume "\<exists>rc. loading_loop sig 0 initial_state = Some rc"
  then obtain r c where "loading_loop sig 0 initial_state = Some (r, c)" by auto
  then have "first_stop sig 0 r" by (simp add: loading_loop_iff)
  then have "max_attempts \<le> attempts (state_after sig r)"
    by (simp add: first_stop_attempts)
  then show "\<exists>k. three_unchanged sig k" by (auto simp: attempts_ge_three)
next
  assume "\<exists>k. three_unchanged sig k"
  then obtain k where "three_unchanged sig k" ..
  then have "max_attempts \<le> attempts (state_after sig (Suc (Suc (Suc k))))"
    by (auto simp: attempts_ge_three)
  then have "\<not> attempts (state_after sig (Suc (Suc (Suc k)))) < max_attempts" by simp
  then obtain r where "first_stop sig 0 r" using first_stop_exists by blast
  then show "\<exists>rc. loading_loop sig 0 initial_state = Some rc"
    using loading_loop_complete[of sig 0 r] by (simp add: state_after_0)
qed

lemma strict_mono_changes: "strict_mono sig \<Longrightarrow> \<not> unchanged sig (Suc k)"
  using strict_monoD[of sig k "Suc k"] by (simp add: unchanged_def previous_reading_def)

text \<open>A source whose count grows up to round \<open>N\<close> keeps the loop running beyond round \<open>N\<close>.\<close>

lemma loading_loop_long_run:
  "\<exists>sig r c. N < r \<and> loading_loop sig 0 initial_state = Some (r, c)"
proof -
  define sig where "sig = (\<lambda>i. min (Suc i) (Suc N))"
  have u: "unchanged sig i \<longleftrightarrow> N < i" for i
    by (cases i) (auto simp: unchanged_def previous_reading_def sig_def)
  have "three_unchanged sig (Suc N)"
    by (simp add: three_unchanged_def u)
  then obtain rc where rc: "loading_loop sig 0 initial_state = Some rc"
    using loading_loop_terminates_iff[of sig] by blast
  obtain r c where "rc = (r, c)" by (cases rc)
  with rc have run: "loading_loop sig 0 initial_state = Some (r, c)" by simp
  then have "first_stop sig 0 r" by (simp add: loading_loop_iff)
  then have "max_attempts \<le> attempts (state_after sig r)"
    by (simp add: first_stop_attempts)
  then obtain k where "r = Suc (Suc (Suc k))" and "three_unchanged sig k"
    by (auto simp: attempts_ge_three)
  then have "N < r" by (simp add: three_unchanged_def u)
  with run show ?thesis by blast
qed

text \<open>
  The mock-driven loop agrees with the loop on every live source that starts with the mock's
  readings.
\<close>

lemma loading_loop_mock_agrees:
  "loading_loop_mock xs n st = Terminated r c \<Longrightarrow> \<forall>i<length xs. sig (n + i) = xs ! i \<Longrightarrow>
   loading_loop sig n st = Some (r, c)"
proof (induction xs arbitrary: n st)
  case Nil
  then show ?case by (simp add: loading_loop_stop split: if_splits)
next
  case (Cons x xs)
  show ?case
  proof (cases "attempts st < max_attempts")
    case True
    from Cons.prems(2) have x: "sig n = x" by auto
    from Cons.prems(2) have rest: "\<forall>i<length xs. sig (Suc n + i) = xs ! i" by auto
    from Cons.prems(1) True
    have "loading_loop_mock xs (Suc n) (stabilization_round x st) = Terminated r c" by simp
    from Cons.IH[OF this rest] show ?thesis using True x by (simp add: loading_loop_continue)
  next
    case False
    with Cons.prems(1) show ?thesis by (simp add: loading_loop_stop)
  qed
qed

text \<open>
  C1. The concrete test of the spec. With threshold 3 and \<open>last_count = 0\<close> at the start, the
  first reading 5 differs from 0, so after the readings 5, 5, 5 the counter of unchanged
  rounds is 2 and the loop asks for a fourth reading; a fourth 5 ends it after 4 rounds with
  count 5. In the same way 5, 6, 6, 6 leaves the counter at 2 after 4 rounds, and a fifth
  reading 6 ends the loop after 5 rounds with count 6. The loop on a live source that keeps
  reporting these counts returns the same.
\<close>

theorem stabilization_test_amended:
  "loading_loop_mock [5, 5, 5] 0 initial_state =
     AwaitsReading 3
       \<lparr>current_participant_count = 5, last_participant_count = 5, attempts = 2\<rparr> \<and>
   loading_loop_mock [5, 5, 5, 5] 0 initial_state = Terminated 4 5 \<and>
   loading_loop_mock [5, 6, 6, 6] 0 initial_state =
     AwaitsReading 4
       \<lparr>current_participant_count = 6, last_participant_count = 6, attempts = 2\<rparr> \<and>
   loading_loop_mock [5, 6, 6, 6, 6] 0 initial_state = Terminated 5 6 \<and>
   loading_loop (\<lambda>n. 5) 0 initial_state = Some (4, 5) \<and>
   loading_loop (\<lambda>n. if n = 0 then 5 else 6) 0 initial_state = Some (5, 6)"
  by (simp add: loading_loop.simps initial_state_def stabilization_round_def max_attempts_def)

text \<open>
  The test as the spec words it fails: the mock sequence 5, 5, 5 does not end the loop after
  3 rounds, and 5, 6, 6, 6 does not end it after 4.
\<close>

theorem stabilization_test_counterexample:
  "loading_loop_mock [5, 5, 5] 0 initial_state \<noteq> Terminated 3 5 \<and>
   loading_loop_mock [5, 6, 6, 6] 0 initial_state \<noteq> Terminated 4 6"
  by (simp add: initial_state_def stabilization_round_def max_attempts_def)

text \<open>
  C2. The step function of the detector: the loop starts with \<open>last_count = 0\<close> and zero
  unchanged rounds; a round that reads \<open>c\<close> adds one to the counter of unchanged rounds when
  \<open>c\<close> equals the last count of the round before and resets the counter to 0 otherwise, and
  then stores \<open>c\<close> as the last count; and the loop returns after \<open>r\<close> rounds with count \<open>n\<close>
  exactly when \<open>r\<close> is the first number of rounds after which the counter is 3 and \<open>n\<close> is
  the count read last.
\<close>

theorem stabilization_step_function:
  "last_participant_count initial_state = 0 \<and> attempts initial_state = 0 \<and>
   attempts (stabilization_round c st) =
     (if c = last_participant_count st then attempts st + 1 else 0) \<and>
   last_participant_count (stabilization_round c st) = c \<and>
   state_after sig (Suc k) = stabilization_round (sig k) (state_after sig k) \<and>
   (loading_loop sig 0 initial_state = Some (r, n) \<longleftrightarrow>
      attempts (state_after sig r) = 3 \<and>
      (\<forall>m<r. attempts (state_after sig m) < 3) \<and>
      n = current_participant_count (state_after sig r))"
proof -
  have "loading_loop sig 0 initial_state = Some (r, n) \<longleftrightarrow>
      attempts (state_after sig r) = 3 \<and>
      (\<forall>m<r. attempts (state_after sig m) < 3) \<and>
      n = current_participant_count (state_after sig r)"
    by (simp add: loading_loop_iff first_stop_0_iff)
  moreover have "last_participant_count initial_state = 0 \<and> attempts initial_state = 0"
    by (simp add: initial_state_def)
  ultimately show ?thesis
    by (simp add: stabilization_round_def state_after_Suc)
qed

theorem stabilization_step_function_witness:
  "loading_loop (\<lambda>i. 5) 0 initial_state = Some (4, 5) \<and>
   attempts (state_after (\<lambda>i. 5) 4) = 3 \<and>
   attempts (state_after (\<lambda>i. 5) 3) < 3 \<and>
   current_participant_count (state_after (\<lambda>i. 5) 4) = 5"
proof -
  have "loading_loop (\<lambda>i. 5) 0 initial_state = Some (4, 5)"
    by (simp add: loading_loop.simps initial_state_def stabilization_round_def max_attempts_def)
  then show ?thesis
    using stabilization_step_function[of 0 initial_state "\<lambda>i. 5" 0 4 5] by simp
qed

text \<open>
  C3. The loop has no bound on its rounds. It returns if and only if, at some point, three
  readings in a row each equal the reading of the round before (the reading before the first
  round being the initial last count 0); so a source that never shows three unchanged rounds
  in a row, such as a strictly increasing count, keeps it running for ever; and for every
  number \<open>N\<close> some source makes it return only after more than \<open>N\<close> rounds.
\<close>

theorem loading_loop_unbounded:
  "((\<exists>rc. loading_loop sig 0 initial_state = Some rc) \<longleftrightarrow> (\<exists>k. three_unchanged sig k)) \<and>
   ((\<forall>k. \<not> three_unchanged sig k) \<longrightarrow> loading_loop sig 0 initial_state = None) \<and>
   (strict_mono sig \<longrightarrow> loading_loop sig 0 initial_state = None) \<and>
   (\<forall>N. \<exists>sig' r c. N < r \<and> loading_loop sig' 0 initial_state = Some (r, c))"
proof -
  have iff: "(\<exists>rc. loading_loop sig 0 initial_state = Some rc) \<longleftrightarrow> (\<exists>k. three_unchanged sig k)"
    by (rule loading_loop_terminates_iff)
  then have never: "(\<forall>k. \<not> three_unchanged sig k) \<longrightarrow> loading_loop sig 0 initial_state = None"
    by (cases "loading_loop sig 0 initial_state") auto
  have "\<forall>k. \<not> three_unchanged sig k" if "strict_mono sig"
    using strict_mono_changes[OF that] by (simp add: three_unchanged_def)
  with never have "strict_mono sig \<longrightarrow> loading_loop sig 0 initial_state = None" by blast
  with iff never loading_loop_long_run show ?thesis by blast
qed

theorem loading_loop_unbounded_witness:
  "strict_mono Suc \<and> (\<forall>k. \<not> three_unchanged Suc k) \<and> loading_loop Suc 0 initial_state = None"
proof -
  have mono: "strict_mono Suc" by (simp add: strict_mono_def)
  have "\<not> three_unchanged Suc k" for k
    by (simp add: three_unchanged_def unchanged_def previous_reading_def)
  with mono show ?thesis using loading_loop_unbounded[of Suc] by simp
qed

section \<open>Properties of the record extractor\<close>

lemma isspace_iff: "isspace c \<longleftrightarrow> c \<in> whitespace_codepoints"
  unfolding isspace_def by (simp only: insert_iff empty_iff) arith

lemma isspace_eq: "(\<lambda>c. c \<in> whitespace_codepoints) = isspace"
  by (rule ext) (rule isspace_iff[symmetric])

lemma not_isspace_eq: "(\<lambda>c. c \<notin> whitespace_codepoints) = (\<lambda>c. \<not> isspace c)"
  by (rule ext) (simp only: isspace_iff)

lemma at_sign_not_space: "\<not> isspace 64"
  by (simp add: isspace_def)

lemma split_whitespace_once:
  "split_whitespace 1 s =
     (let r = dropWhile isspace s
      in if r = [] then []
         else takeWhile (\<lambda>c. \<not> isspace c) r
                # (let t = dropWhile isspace (dropWhile (\<lambda>c. \<not> isspace c) r)
                   in if t = [] then [] else [t]))"
  by (simp add: Let_def)

lemma split_whitespace_blank:
  assumes "\<forall>c\<in>set s. isspace c"
  shows "split_whitespace 1 s = []"
proof -
  from assms have "dropWhile isspace s = []"
    by (simp add: dropWhile_eq_Nil_conv)
  then show ?thesis
    by (simp only: split_whitespace_once Let_def if_True simp_thms)
qed

lemma parse_name_blank:
  assumes "\<forall>c\<in>set s. isspace c"
  shows "parse_name db s = Inl IndexError"
  unfolding parse_name_def split_whitespace_blank[OF assms] by simp

lemma capitalize_Nil: "capitalize db [] = []"
  by (simp add: capitalize_def)

lemma parse_name_token:
  assumes "\<exists>c\<in>set s. \<not> isspace c"
  shows "parse_name db s =
     Inr (capitalize db (takeWhile (\<lambda>c. \<not> isspace c) (dropWhile isspace s)),
          capitalize db
            (dropWhile isspace (dropWhile (\<lambda>c. \<not> isspace c) (dropWhile isspace s))))"
proof -
  from assms have ne: "dropWhile isspace s \<noteq> []"
    by (simp add: dropWhile_eq_Nil_conv)
  show ?thesis
  proof (cases "dropWhile isspace (dropWhile (\<lambda>c. \<not> isspace c) (dropWhile isspace s)) = []")
    case True
    have "split_whitespace 1 s = [takeWhile (\<lambda>c. \<not> isspace c) (dropWhile isspace s)]"
      unfolding split_whitespace_once Let_def using ne True
      by (simp only: if_False if_True simp_thms)
    then show ?thesis
      unfolding parse_name_def using True by (simp only: list.case capitalize_Nil simp_thms)
  next
    case False
    have "split_whitespace 1 s = [takeWhile (\<lambda>c. \<not> isspace c) (dropWhile isspace s),
        dropWhile isspace (dropWhile (\<lambda>c. \<not> isspace c) (dropWhile isspace s))]"
      unfolding split_whitespace_once Let_def using ne False
      by (simp only: if_False simp_thms)
    then show ?thesis unfolding parse_name_def by (simp only: list.case)
  qed
qed

lemma parse_name_error: "parse_name db s = Inl x \<Longrightarrow> x = IndexError"
  by (cases "\<forall>c\<in>set s. isspace c") (simp_all add: parse_name_blank parse_name_token)

text \<open>On ASCII text the case mappings do not consult the database.\<close>

lemma lower_from_ascii:
  "\<forall>d\<in>set cs. d < 128 \<Longrightarrow>
   lower_from db s i cs = map (\<lambda>d. if 65 \<le> d \<and> d \<le> 90 then d + 32 else d) cs"
  by (induction cs arbitrary: i) (simp_all add: to_lower_def)

lemma capitalize_ascii:
  "c < 128 \<Longrightarrow> \<forall>d\<in>set cs. d < 128 \<Longrightarrow>
   capitalize db (c # cs) =
     (if 97 \<le> c \<and> c \<le> 122 then c - 32 else c)
       # map (\<lambda>d. if 65 \<le> d \<and> d \<le> 90 then d + 32 else d) cs"
  by (simp add: capitalize_def to_title_def lower_from_ascii)

lemma capitalize_title: "128 \<le> c \<Longrightarrow> capitalize db [c] = title_full db c"
  by (simp add: capitalize_def to_title_def)

lemma capitalize_lower:
  "c < 128 \<Longrightarrow> 128 \<le> d \<Longrightarrow>
   capitalize db [c, d] = (if 97 \<le> c \<and> c \<le> 122 then c - 32 else c) # lower_full db [c, d] 1"
  by (simp add: capitalize_def to_title_def to_lower_def)

lemma parse_name_structure:
  assumes "\<exists>c\<in>set full_name. \<not> isspace c"
  shows "(let stripped = dropWhile isspace full_name;
              token = takeWhile (\<lambda>c. \<not> isspace c) stripped;
              gap = takeWhile isspace (dropWhile (\<lambda>c. \<not> isspace c) stripped);
              remainder = dropWhile isspace (dropWhile (\<lambda>c. \<not> isspace c) stripped)
          in parse_name db full_name = Inr (capitalize db token, capitalize db remainder) \<and>
             stripped = token @ gap @ remainder \<and>
             token \<noteq> [] \<and> (\<forall>c\<in>set token. \<not> isspace c) \<and> (\<forall>c\<in>set gap. isspace c) \<and>
             (remainder \<noteq> [] \<longrightarrow> \<not> isspace (hd remainder)))"
proof -
  define stripped where "stripped = dropWhile isspace full_name"
  define token where "token = takeWhile (\<lambda>c. \<not> isspace c) stripped"
  define gap where "gap = takeWhile isspace (dropWhile (\<lambda>c. \<not> isspace c) stripped)"
  define remainder where
    "remainder = dropWhile isspace (dropWhile (\<lambda>c. \<not> isspace c) stripped)"
  have parsed: "parse_name db full_name = Inr (capitalize db token, capitalize db remainder)"
    unfolding token_def remainder_def stripped_def by (rule parse_name_token[OF assms])
  have parts: "stripped = token @ gap @ remainder"
    unfolding token_def gap_def remainder_def by simp
  from assms have "stripped \<noteq> []"
    by (simp add: stripped_def dropWhile_eq_Nil_conv)
  then have "\<not> isspace (hd stripped)"
    unfolding stripped_def by (rule hd_dropWhile)
  with \<open>stripped \<noteq> []\<close> have token: "token \<noteq> []"
    by (cases stripped) (simp_all add: token_def)
  have token_chars: "\<forall>c\<in>set token. \<not> isspace c"
    unfolding token_def by (auto dest: set_takeWhileD)
  have gap_chars: "\<forall>c\<in>set gap. isspace c"
    unfolding gap_def by (auto dest: set_takeWhileD)
  have rem_hd: "remainder \<noteq> [] \<longrightarrow> \<not> isspace (hd remainder)"
    unfolding remainder_def using hd_dropWhile[of isspace] by blast
  from parsed parts token token_chars gap_chars rem_hd
  show ?thesis
    unfolding Let_def stripped_def[symmetric] token_def[symmetric] gap_def[symmetric]
      remainder_def[symmetric]
    by blast
qed

lemma extract_entry_error: "extract_entry db e = Inl x \<Longrightarrow> x = IndexError"
  by (auto simp: extract_entry_def Let_def dest: parse_name_error
      split: if_splits sum.splits option.splits prod.splits)

lemma extract_entry_email:
  "64 \<in> set (name_text e) \<Longrightarrow> extract_entry db e = Inr None"
  by (simp add: extract_entry_def)

lemma extract_entry_blank:
  assumes "\<forall>c\<in>set (name_text e). isspace c"
  shows "extract_entry db e = Inl IndexError"
proof -
  from assms at_sign_not_space have "64 \<notin> set (name_text e)" by blast
  then show ?thesis using assms by (simp add: extract_entry_def parse_name_blank)
qed

lemma extract_entry_candidate:
  assumes "extract_entry db e = Inr (Some p)"
  shows "\<exists>h. href e = Some h \<and> h \<noteq> [] \<and> profile_url p = ''https://lu.ma'' @ h \<and>
             linkedin p = None \<and>
             parse_name db (name_text e) = Inr (first_name p, last_name p)"
  using assms
  by (auto simp: extract_entry_def Let_def
      split: if_splits sum.splits option.splits prod.splits)

lemma collect_participants_append:
  "collect_participants db (xs @ ys) =
     (case collect_participants db xs of
        Inl e \<Rightarrow> Inl e
      | Inr ps \<Rightarrow>
          (case collect_participants db ys of Inl e \<Rightarrow> Inl e | Inr qs \<Rightarrow> Inr (ps @ qs)))"
  by (induction xs) (auto split: sum.splits option.splits)

lemma collect_participants_error: "collect_participants db xs = Inl x \<Longrightarrow> x = IndexError"
  by (induction xs) (auto split: sum.splits option.splits dest: extract_entry_error)

lemma collect_participants_source:
  "collect_participants db es = Inr ps \<Longrightarrow> p \<in> set ps \<Longrightarrow>
   \<exists>e\<in>set es. extract_entry db e = Inr (Some p)"
proof (induction es arbitrary: ps)
  case Nil
  then show ?case by simp
next
  case (Cons e es)
  then show ?case
    by (fastforce split: sum.splits option.splits)
qed

lemma collect_participants_blank:
  assumes "\<forall>c\<in>set (name_text e). isspace c"
  shows "collect_participants db (es @ e # es') = Inl IndexError"
proof (cases "collect_participants db es")
  case (Inl x)
  then show ?thesis
    using collect_participants_error[OF Inl] by (simp add: collect_participants_append)
next
  case (Inr ps)
  then show ?thesis
    using extract_entry_blank[OF assms] by (simp add: collect_participants_append)
qed

lemma parse_jane_doe:
  "parse_name db (text_of ''Jane Doe'') = Inr (text_of ''Jane'', text_of ''Doe'')"
  by (simp add: parse_name_def text_of_def isspace_def capitalize_def to_title_def to_lower_def)

lemma parse_madonna:
  "parse_name db (text_of ''Madonna'') = Inr (text_of ''Madonna'', [])"
  by (simp add: parse_name_def text_of_def isspace_def capitalize_def to_title_def to_lower_def)

lemma parse_mixed_case:
  "parse_name db (text_of ''jANE'' @ [0xA0, 0x3000] @ text_of ''dOE  x '') =
     Inr (text_of ''Jane'', text_of ''Doe  x '')"
  by (simp add: parse_name_def text_of_def isspace_def capitalize_def to_title_def to_lower_def)

text \<open>
  C5. An entry whose name text contains \<open>@\<close> yields no participant, whatever its name and
  link are otherwise: the extraction of the whole list is the same as without the entry.
\<close>

theorem email_entries_excluded:
  assumes "of_char (CHR ''@'') \<in> set (name_text e)"
  shows "extract_entry db e = Inr None \<and>
         collect_participants db (es @ e # es') = collect_participants db (es @ es')"
  using assms
  by (simp add: extract_entry_email collect_participants_append split: sum.splits)

theorem email_entries_excluded_witness:
  "of_char (CHR ''@'') \<in>
     set (name_text \<lparr>name_text = text_of ''user@example.com'', href = Some ''/user/usr-1''\<rparr>) \<and>
   extract_entry latin1_tables
     \<lparr>name_text = text_of ''user@example.com'', href = Some ''/user/usr-1''\<rparr> = Inr None \<and>
   collect_participants latin1_tables
     [\<lparr>name_text = text_of ''user@example.com'', href = Some ''/user/usr-1''\<rparr>] = Inr []"
proof -
  have at: "of_char (CHR ''@'') \<in>
     set (name_text \<lparr>name_text = text_of ''user@example.com'', href = Some ''/user/usr-1''\<rparr>)"
    by (simp add: text_of_def)
  from email_entries_excluded[OF at, of latin1_tables "[]" "[]"] at
  show ?thesis by simp
qed

text \<open>
  C6. Name parsing. For a name with at least one code point that is not whitespace: after
  the leading whitespace, the name is a first token without whitespace, a run of whitespace,
  and a remainder that does not start with whitespace; the first name is the capitalized
  token and the last name the capitalized remainder (empty when there is none). These are
  the names of the participant that the entry yields. Capitalizing puts the first code
  point in title case and the others in lower case: on ASCII text the first letter becomes
  a capital and all other letters small, above ASCII the Unicode tables decide. "Jane Doe"
  gives "Jane" and "Doe", "Madonna" gives "Madonna" and the empty last name, and "jANE",
  a no-break space, an ideographic space and "dOE  x " give "Jane" and "Doe  x ".
\<close>

theorem name_parsing:
  assumes "\<exists>c\<in>set full_name. c \<notin> whitespace_codepoints"
  shows "(let stripped = dropWhile (\<lambda>c. c \<in> whitespace_codepoints) full_name;
              token = takeWhile (\<lambda>c. c \<notin> whitespace_codepoints) stripped;
              gap = takeWhile (\<lambda>c. c \<in> whitespace_codepoints)
                      (dropWhile (\<lambda>c. c \<notin> whitespace_codepoints) stripped);
              remainder = dropWhile (\<lambda>c. c \<in> whitespace_codepoints)
                            (dropWhile (\<lambda>c. c \<notin> whitespace_codepoints) stripped)
          in parse_name db full_name = Inr (capitalize db token, capitalize db remainder) \<and>
             stripped = token @ gap @ remainder \<and>
             token \<noteq> [] \<and> (\<forall>c\<in>set token. c \<notin> whitespace_codepoints) \<and>
             (\<forall>c\<in>set gap. c \<in> whitespace_codepoints) \<and>
             (remainder \<noteq> [] \<longrightarrow> hd remainder \<notin> whitespace_codepoints) \<and>
             (\<forall>h p. extract_entry db \<lparr>name_text = full_name, href = h\<rparr> = Inr (Some p) \<longrightarrow>
                first_name p = capitalize db token \<and> last_name p = capitalize db remainder)) \<and>
         capitalize db [] = [] \<and>
         (\<forall>c cs. c < 128 \<and> (\<forall>d\<in>set cs. d < 128) \<longrightarrow>
            capitalize db (c # cs) =
              (if 97 \<le> c \<and> c \<le> 122 then c - 32 else c)
                # map (\<lambda>d. if 65 \<le> d \<and> d \<le> 90 then d + 32 else d) cs) \<and>
         (\<forall>c. 128 \<le> c \<longrightarrow> capitalize db [c] = title_full db c) \<and>
         (\<forall>c d. c < 128 \<and> 128 \<le> d \<longrightarrow>
            capitalize db [c, d] =
              (if 97 \<le> c \<and> c \<le> 122 then c - 32 else c) # lower_full db [c, d] 1) \<and>
         parse_name db (text_of ''Jane Doe'') = Inr (text_of ''Jane'', text_of ''Doe'') \<and>
         parse_name db (text_of ''Madonna'') = Inr (text_of ''Madonna'', []) \<and>
         parse_name db (text_of ''jANE'' @ [0xA0, 0x3000] @ text_of ''dOE  x '') =
           Inr (text_of ''Jane'', text_of ''Doe  x '')"
proof -
  from assms have ex: "\<exists>c\<in>set full_name. \<not> isspace c"
    unfolding not_isspace_eq .
  define token where
    "token = takeWhile (\<lambda>c. \<not> isspace c) (dropWhile isspace full_name)"
  define remainder where
    "remainder =
       dropWhile isspace (dropWhile (\<lambda>c. \<not> isspace c) (dropWhile isspace full_name))"
  have parsed: "parse_name db full_name = Inr (capitalize db token, capitalize db remainder)"
    unfolding token_def remainder_def by (rule parse_name_token[OF ex])
  have names: "\<forall>h p. extract_entry db \<lparr>name_text = full_name, href = h\<rparr> = Inr (Some p) \<longrightarrow>
      first_name p = capitalize db token \<and> last_name p = capitalize db remainder"
  proof (intro allI impI)
    fix h p
    assume "extract_entry db \<lparr>name_text = full_name, href = h\<rparr> = Inr (Some p)"
    from extract_entry_candidate[OF this] parsed
    show "first_name p = capitalize db token \<and> last_name p = capitalize db remainder"
      by auto
  qed
  have ascii: "\<forall>c cs. c < 128 \<and> (\<forall>d\<in>set cs. d < 128) \<longrightarrow>
            capitalize db (c # cs) =
              (if 97 \<le> c \<and> c \<le> 122 then c - 32 else c)
                # map (\<lambda>d. if 65 \<le> d \<and> d \<le> 90 then d + 32 else d) cs"
    using capitalize_ascii by blast
  have title: "\<forall>c. 128 \<le> c \<longrightarrow> capitalize db [c] = title_full db c"
    using capitalize_title by blast
  have lower: "\<forall>c d. c < 128 \<and> 128 \<le> d \<longrightarrow>
            capitalize db [c, d] =
              (if 97 \<le> c \<and> c \<le> 122 then c - 32 else c) # lower_full db [c, d] 1"
    using capitalize_lower by blast
  have rem_hd: "remainder \<noteq> [] \<longrightarrow> hd remainder \<notin> whitespace_codepoints"
    unfolding remainder_def using hd_dropWhile[of isspace] isspace_iff by blast
  from parse_name_structure[OF ex, of db] names ascii title lower rem_hd
    capitalize_Nil[of db] parse_jane_doe[of db] parse_madonna[of db] parse_mixed_case[of db]
  show ?thesis
    unfolding isspace_eq not_isspace_eq Let_def token_def remainder_def
    by (intro conjI) blast+
qed

theorem name_parsing_witness:
  "(\<exists>c\<in>set ([0xE9] @ text_of ''lodie'' @ [0xA0] @ text_of ''DUPR'' @ [0xC9]).
       c \<notin> whitespace_codepoints) \<and>
   parse_name latin1_tables ([0xE9] @ text_of ''lodie'' @ [0xA0] @ text_of ''DUPR'' @ [0xC9]) =
     Inr ([0xC9] @ text_of ''lodie'', text_of ''Dupr'' @ [0xE9])"
proof -
  have ex: "\<exists>c\<in>set ([0xE9] @ text_of ''lodie'' @ [0xA0] @ text_of ''DUPR'' @ [0xC9]).
       c \<notin> whitespace_codepoints"
    by (simp add: text_of_def)
  from name_parsing[OF ex, of latin1_tables] ex show ?thesis
    by (simp add: Let_def text_of_def capitalize_def to_title_def to_lower_def
        latin1_tables_def)
qed

text \<open>
  C9. A participant is produced only from an entry whose \<open>href\<close> is present and not empty,
  and its profile URL is \<open>https://lu.ma\<close> followed by that \<open>href\<close>; an entry whose \<open>href\<close> is
  missing or empty yields no participant. The same holds of every participant of a whole
  extracted list.
\<close>

theorem profile_url_absolute:
  "(extract_entry db e = Inr (Some p) \<longrightarrow>
      (\<exists>h. href e = Some h \<and> h \<noteq> [] \<and> profile_url p = ''https://lu.ma'' @ h)) \<and>
   (href e = None \<or> href e = Some [] \<longrightarrow> (\<forall>q. extract_entry db e \<noteq> Inr (Some q))) \<and>
   (collect_participants db es = Inr ps \<and> p \<in> set ps \<longrightarrow>
      (\<exists>e'\<in>set es. \<exists>h. href e' = Some h \<and> h \<noteq> [] \<and> profile_url p = ''https://lu.ma'' @ h))"
proof -
  have one: "\<exists>h. href e = Some h \<and> h \<noteq> [] \<and> profile_url q = ''https://lu.ma'' @ h"
    if "extract_entry db e = Inr (Some q)" for e q
    using extract_entry_candidate[OF that] by blast
  have none: "\<forall>q. extract_entry db e \<noteq> Inr (Some q)" if "href e = None \<or> href e = Some []"
    using that one[of e] by auto
  have many: "\<exists>e'\<in>set es. \<exists>h. href e' = Some h \<and> h \<noteq> [] \<and> profile_url p = ''https://lu.ma'' @ h"
    if "collect_participants db es = Inr ps" "p \<in> set ps"
    using collect_participants_source[OF that] one by blast
  from one[of e p] none many show ?thesis by blast
qed

theorem profile_url_absolute_witness:
  "extract_entry latin1_tables \<lparr>name_text = text_of ''Jane Doe'', href = Some ''/user/usr-1''\<rparr> =
     Inr (Some \<lparr>first_name = text_of ''Jane'', last_name = text_of ''Doe'',
                profile_url = ''https://lu.ma/user/usr-1'', linkedin = None\<rparr>) \<and>
   collect_participants latin1_tables
       [\<lparr>name_text = text_of ''Jane Doe'', href = Some ''/user/usr-1''\<rparr>] =
     Inr [\<lparr>first_name = text_of ''Jane'', last_name = text_of ''Doe'',
           profile_url = ''https://lu.ma/user/usr-1'', linkedin = None\<rparr>] \<and>
   (\<exists>h. href \<lparr>name_text = text_of ''Jane Doe'', href = Some ''/user/usr-1''\<rparr> = Some h \<and>
        h \<noteq> [] \<and> ''https://lu.ma/user/usr-1'' = ''https://lu.ma'' @ h) \<and>
   extract_entry latin1_tables \<lparr>name_text = text_of ''Jane Doe'', href = Some []\<rparr> = Inr None \<and>
   extract_entry latin1_tables \<lparr>name_text = text_of ''Jane Doe'', href = None\<rparr> = Inr None"
proof -
  have no_at: "64 \<notin> set (text_of ''Jane Doe'')"
    by (simp add: text_of_def)
  have run: "extract_entry latin1_tables
       \<lparr>name_text = text_of ''Jane Doe'', href = Some ''/user/usr-1''\<rparr> =
     Inr (Some \<lparr>first_name = text_of ''Jane'', last_name = text_of ''Doe'',
                profile_url = ''https://lu.ma/user/usr-1'', linkedin = None\<rparr>)"
    using no_at by (simp add: extract_entry_def parse_jane_doe)
  then have collected:
    "collect_participants latin1_tables
       [\<lparr>name_text = text_of ''Jane Doe'', href = Some ''/user/usr-1''\<rparr>] =
       Inr [\<lparr>first_name = text_of ''Jane'', last_name = text_of ''Doe'',
             profile_url = ''https://lu.ma/user/usr-1'', linkedin = None\<rparr>]"
    by simp
  have empty: "extract_entry latin1_tables
      \<lparr>name_text = text_of ''Jane Doe'', href = Some []\<rparr> = Inr None"
    using no_at by (simp add: extract_entry_def parse_jane_doe)
  have absent: "extract_entry latin1_tables
      \<lparr>name_text = text_of ''Jane Doe'', href = None\<rparr> = Inr None"
    using no_at by (simp add: extract_entry_def parse_jane_doe)
  from run collected empty absent
    profile_url_absolute
      [of latin1_tables "\<lparr>name_text = text_of ''Jane Doe'', href = Some ''/user/usr-1''\<rparr>"
          "\<lparr>first_name = text_of ''Jane'', last_name = text_of ''Doe'',
            profile_url = ''https://lu.ma/user/usr-1'', linkedin = None\<rparr>"
          "[\<lparr>name_text = text_of ''Jane Doe'', href = Some ''/user/usr-1''\<rparr>]"
          "[\<lparr>first_name = text_of ''Jane'', last_name = text_of ''Doe'',
             profile_url = ''https://lu.ma/user/usr-1'', linkedin = None\<rparr>]"]
    profile_url_absolute
      [of latin1_tables "\<lparr>name_text = text_of ''Jane Doe'', href = None\<rparr>" _ "[]" "[]"]
  show ?thesis by simp
qed

section \<open>Properties of the profile resolver and the export\<close>

lemma resolve_participant_not_found:
  assumes "visit (profile_url p) = Inr NoLink \<or> visit (profile_url p) = Inr (LinkHref None) \<or>
           visit (profile_url p) = Inr (LinkHref (Some []))"
  shows "resolve_participant visit p = Inr p"
  using assms by (auto simp: resolve_participant_def)

lemma resolve_participant_linkedin:
  "resolve_participant visit p = Inr p' \<Longrightarrow> linkedin p \<noteq> Some [] \<Longrightarrow> linkedin p' \<noteq> Some []"
  by (auto simp: resolve_participant_def
      split: sum.splits linkedin_lookup.splits option.splits if_splits)

lemma resolve_participants_linkedin:
  "resolve_participants visit ps = Inr ps' \<Longrightarrow> \<forall>p\<in>set ps. linkedin p \<noteq> Some [] \<Longrightarrow>
   \<forall>p\<in>set ps'. linkedin p \<noteq> Some []"
proof (induction ps arbitrary: ps')
  case Nil
  then show ?case by simp
next
  case (Cons p ps)
  from Cons.prems(1) obtain q qs where q: "resolve_participant visit p = Inr q"
    and qs: "resolve_participants visit ps = Inr qs" and ps': "ps' = q # qs"
    by (auto split: sum.splits)
  from q Cons.prems(2) have "linkedin q \<noteq> Some []"
    by (auto dest: resolve_participant_linkedin)
  moreover from Cons.IH[OF qs] Cons.prems(2) have "\<forall>p\<in>set qs. linkedin p \<noteq> Some []"
    by simp
  ultimately show ?case using ps' by simp
qed

lemma resolve_participants_append:
  "resolve_participants visit (xs @ ys) =
     (case resolve_participants visit xs of
        Inl e \<Rightarrow> Inl e
      | Inr ps \<Rightarrow>
          (case resolve_participants visit ys of Inl e \<Rightarrow> Inl e | Inr qs \<Rightarrow> Inr (ps @ qs)))"
  by (induction xs) (auto split: sum.splits)

lemma collect_participants_linkedin:
  "collect_participants db es = Inr ps \<Longrightarrow> p \<in> set ps \<Longrightarrow> linkedin p = None"
  using collect_participants_source[of db es ps p] extract_entry_candidate by blast

lemma write_rows_row:
  "r \<in> set (fst (write_rows md ps)) \<Longrightarrow> \<exists>p\<in>set ps. participant_data md p = Inr r"
proof (induction ps arbitrary: r)
  case Nil
  then show ?case by simp
next
  case (Cons p ps)
  then show ?case
    by (cases "participant_data md p"; cases "write_rows md ps") auto
qed

lemma participant_data_row:
  assumes "participant_data md p = Inr r"
  shows "linkedin p = Some (row_linkedin r) \<and>
         custom_att_1 r = event_title md \<and> custom_att_2 r = event_date md \<and>
         custom_att_3 r = event_time md \<and> custom_att_4 r = event_place md \<and>
         custom_att_5 r = event_host md \<and> custom_att_6 r = ''Luma''"
  using assms by (auto simp: participant_data_def split: option.splits)

text \<open>After the filter the writing loop meets no missing key.\<close>

lemma write_rows_filtered: "snd (write_rows md (filter_linkedin ps)) = None"
  by (induction ps)
    (auto simp: filter_linkedin_def participant_data_def split: prod.splits option.splits)

lemma handle_exceptions_csv:
  "handle_exceptions func args = Some out \<Longrightarrow>
   \<exists>b. func args = Some b \<and> csv_file out = csv_file b"
  by (auto simp: handle_exceptions_def split: option.splits completion.splits if_splits)

lemma handle_exceptions_caught:
  "func args = Some b \<Longrightarrow> completion b = Raised e \<Longrightarrow> is_Exception e \<Longrightarrow>
   handle_exceptions func args =
     Some \<lparr>completion = Returned None, csv_file = csv_file b,
           error_line = Some (''An error occurred: '' @ exception_str e)\<rparr>"
  by (simp add: handle_exceptions_def)

lemma body_raised_before_export:
  "before_export env = Some (Inl e) \<Longrightarrow>
   scrape_luma_event_body env =
     Some \<lparr>completion = Raised e, csv_file = None, error_line = None\<rparr>"
  by (simp add: scrape_luma_event_body_def)

lemma body_csv:
  assumes "scrape_luma_event_body env = Some b" and "csv_file b = Some rows"
  shows "\<exists>md ps. before_export env = Some (Inr (md, ps)) \<and>
                 rows = fst (write_rows md (filter_linkedin ps))"
  using assms
  by (auto simp: scrape_luma_event_body_def export_and_close_def
      split: option.splits sum.splits prod.splits)

lemma before_export_result:
  assumes "before_export env = Some (Inr (md, ps))"
  shows "event_page env = Inr md \<and>
         (\<exists>cs. collect_participants (unicode_tables env) (guest_entries env) = Inr cs \<and>
               resolve_participants (profile_page env) cs = Inr ps)"
  using assms by (auto simp: before_export_def split: option.splits sum.splits)

lemma before_export_blank:
  assumes "event_page env = Inr md"
    and "loading_loop (count_signal env) 0 initial_state = Some rc"
    and "guest_entries env = es @ e # es'"
    and "\<forall>c\<in>set (name_text e). isspace c"
  shows "before_export env = Some (Inl IndexError)"
  using assms by (simp add: before_export_def collect_participants_blank)

lemma sample_no_at:
  "64 \<notin> set (text_of ''Jane Doe'')" "64 \<notin> set (text_of ''Madonna'')"
  by (simp_all add: text_of_def)

lemma sample_loop: "loading_loop (\<lambda>n. 2) 0 initial_state = Some (4, 2)"
  by (simp add: loading_loop.simps initial_state_def stabilization_round_def max_attempts_def)

text \<open>
  C4. The export invariant. Whenever a run writes the CSV file, every row has a non-empty
  LinkedIn URL, and the six custom attributes of every row are the title, date, time, place
  and host read from the event page of that run and the constant \<open>Luma\<close>; so all rows of one
  run carry the same six values.
\<close>

theorem export_invariant:
  assumes "scrape_luma_event env = Some out" and "csv_file out = Some rows"
  shows "\<exists>md. event_page env = Inr md \<and>
           (\<forall>r\<in>set rows.
              row_linkedin r \<noteq> [] \<and>
              custom_att_1 r = event_title md \<and> custom_att_2 r = event_date md \<and>
              custom_att_3 r = event_time md \<and> custom_att_4 r = event_place md \<and>
              custom_att_5 r = event_host md \<and> custom_att_6 r = ''Luma'')"
proof -
  from assms obtain b where "scrape_luma_event_body env = Some b" "csv_file b = Some rows"
    unfolding scrape_luma_event_def by (auto dest: handle_exceptions_csv)
  then obtain md ps where before: "before_export env = Some (Inr (md, ps))"
    and rows: "rows = fst (write_rows md (filter_linkedin ps))"
    using body_csv by blast
  from before_export_result[OF before] obtain cs where page: "event_page env = Inr md"
    and cs: "collect_participants (unicode_tables env) (guest_entries env) = Inr cs"
    and ps: "resolve_participants (profile_page env) cs = Inr ps"
    by blast
  from cs have "\<forall>p\<in>set cs. linkedin p \<noteq> Some []"
    by (auto dest: collect_participants_linkedin)
  with ps have linked: "\<forall>p\<in>set ps. linkedin p \<noteq> Some []"
    by (rule resolve_participants_linkedin)
  have "row_linkedin r \<noteq> [] \<and>
        custom_att_1 r = event_title md \<and> custom_att_2 r = event_date md \<and>
        custom_att_3 r = event_time md \<and> custom_att_4 r = event_place md \<and>
        custom_att_5 r = event_host md \<and> custom_att_6 r = ''Luma''"
    if "r \<in> set rows" for r
  proof -
    from that rows obtain p where p: "p \<in> set (filter_linkedin ps)"
      and r: "participant_data md p = Inr r"
      using write_rows_row by blast
    from p have "p \<in> set ps" by (simp add: filter_linkedin_def)
    with linked have "linkedin p \<noteq> Some []" by blast
    with participant_data_row[OF r] show ?thesis by auto
  qed
  with page show ?thesis by blast
qed

theorem export_invariant_witness:
  "scrape_luma_event sample_env =
     Some \<lparr>completion = Returned (Some ()),
           csv_file =
             Some [\<lparr>row_first_name = text_of ''Jane'', row_last_name = text_of ''Doe'',
                    row_linkedin = ''https://www.linkedin.com/in/jane-doe'',
                    custom_att_1 = ''AI for Developers'', custom_att_2 = ''Thursday, March 6'',
                    custom_att_3 = ''6:00 PM - 8:00 PM'', custom_att_4 = ''Online'',
                    custom_att_5 = ''GitAuto'', custom_att_6 = ''Luma''\<rparr>],
           error_line = None\<rparr> \<and>
   (\<exists>md. event_page sample_env = Inr md \<and>
      (\<forall>r\<in>set [\<lparr>row_first_name = text_of ''Jane'', row_last_name = text_of ''Doe'',
                    row_linkedin = ''https://www.linkedin.com/in/jane-doe'',
                    custom_att_1 = ''AI for Developers'', custom_att_2 = ''Thursday, March 6'',
                    custom_att_3 = ''6:00 PM - 8:00 PM'', custom_att_4 = ''Online'',
                    custom_att_5 = ''GitAuto'', custom_att_6 = ''Luma''\<rparr>].
         row_linkedin r \<noteq> [] \<and>
         custom_att_1 r = event_title md \<and> custom_att_2 r = event_date md \<and>
         custom_att_3 r = event_time md \<and> custom_att_4 r = event_place md \<and>
         custom_att_5 r = event_host md \<and> custom_att_6 r = ''Luma''))"
proof -
  have run: "scrape_luma_event sample_env =
     Some \<lparr>completion = Returned (Some ()),
           csv_file =
             Some [\<lparr>row_first_name = text_of ''Jane'', row_last_name = text_of ''Doe'',
                    row_linkedin = ''https://www.linkedin.com/in/jane-doe'',
                    custom_att_1 = ''AI for Developers'', custom_att_2 = ''Thursday, March 6'',
                    custom_att_3 = ''6:00 PM - 8:00 PM'', custom_att_4 = ''Online'',
                    custom_att_5 = ''GitAuto'', custom_att_6 = ''Luma''\<rparr>],
           error_line = None\<rparr>"
    by (simp add: scrape_luma_event_def handle_exceptions_def scrape_luma_event_body_def
        before_export_def export_and_close_def sample_env_def sample_profile_page_def
        sample_metadata_def sample_loop extract_entry_def parse_jane_doe parse_madonna
        text_of_def[of "''user@example.com''"] sample_no_at
        resolve_participant_def filter_linkedin_def participant_data_def)
  from export_invariant[OF run] run show ?thesis by simp
qed

text \<open>
  C7. When the profile page of a participant has no LinkedIn link element, or the element
  has no \<open>href\<close> or an empty one, this is not an error: the participant is left as it was
  (without a LinkedIn URL), the loop goes on with the next participant, and after the filter
  the result is the same as if the participant had not been in the list.
\<close>

theorem linkedin_not_found:
  assumes "visit (profile_url p) = Inr NoLink \<or> visit (profile_url p) = Inr (LinkHref None) \<or>
           visit (profile_url p) = Inr (LinkHref (Some []))"
    and "linkedin p = None"
  shows "resolve_participant visit p = Inr p \<and>
         resolve_participants visit (p # ps) =
           (case resolve_participants visit ps of Inl e \<Rightarrow> Inl e | Inr ps' \<Rightarrow> Inr (p # ps')) \<and>
         map_sum id filter_linkedin (resolve_participants visit (xs @ p # ps)) =
           map_sum id filter_linkedin (resolve_participants visit (xs @ ps))"
proof -
  have one: "resolve_participant visit p = Inr p"
    using assms(1) by (rule resolve_participant_not_found)
  then have next_one: "resolve_participants visit (p # ps) =
      (case resolve_participants visit ps of Inl e \<Rightarrow> Inl e | Inr ps' \<Rightarrow> Inr (p # ps'))"
    by simp
  have "map_sum id filter_linkedin (resolve_participants visit (xs @ p # ps)) =
        map_sum id filter_linkedin (resolve_participants visit (xs @ ps))"
    unfolding resolve_participants_append next_one using assms(2)
    by (cases "resolve_participants visit xs"; cases "resolve_participants visit ps")
      (simp_all add: filter_linkedin_def)
  with one next_one show ?thesis by blast
qed

theorem linkedin_not_found_witness:
  "sample_profile_page ''https://lu.ma/user/usr-3'' = Inr NoLink \<and>
   resolve_participant sample_profile_page
     \<lparr>first_name = text_of ''Madonna'', last_name = [], profile_url = ''https://lu.ma/user/usr-3'',
      linkedin = None\<rparr> =
     Inr \<lparr>first_name = text_of ''Madonna'', last_name = [], profile_url = ''https://lu.ma/user/usr-3'',
          linkedin = None\<rparr> \<and>
   map_sum id filter_linkedin
     (resolve_participants sample_profile_page
        [\<lparr>first_name = text_of ''Madonna'', last_name = [],
          profile_url = ''https://lu.ma/user/usr-3'', linkedin = None\<rparr>]) = Inr []"
proof -
  have page: "sample_profile_page ''https://lu.ma/user/usr-3'' = Inr NoLink"
    by (simp add: sample_profile_page_def)
  from linkedin_not_found
    [of sample_profile_page
        "\<lparr>first_name = text_of ''Madonna'', last_name = [],
          profile_url = ''https://lu.ma/user/usr-3'', linkedin = None\<rparr>" "[]" "[]"]
    page
  show ?thesis by (simp add: filter_linkedin_def)
qed

text \<open>
  C8. The top-level guard. An exception of the class \<open>Exception\<close> raised inside the run is
  caught: the guard prints \<open>An error occurred:\<close> with the exception's text and returns
  \<open>None\<close>. When an exception is raised before the export, the run writes no CSV file.
\<close>

theorem guard_catches_exceptions:
  "(is_Exception e \<and> scrape_luma_event_body env = Some b \<and> completion b = Raised e \<longrightarrow>
      scrape_luma_event env =
        Some \<lparr>completion = Returned None, csv_file = csv_file b,
              error_line = Some (''An error occurred: '' @ exception_str e)\<rparr>) \<and>
   (is_Exception e \<and> before_export env = Some (Inl e) \<longrightarrow>
      scrape_luma_event env =
        Some \<lparr>completion = Returned None, csv_file = None,
              error_line = Some (''An error occurred: '' @ exception_str e)\<rparr>) \<and>
   (before_export env = Some (Inl e) \<longrightarrow>
      (\<exists>out. scrape_luma_event env = Some out \<and> csv_file out = None))"
proof -
  have caught: "scrape_luma_event env =
        Some \<lparr>completion = Returned None, csv_file = csv_file b,
              error_line = Some (''An error occurred: '' @ exception_str e)\<rparr>"
    if "is_Exception e" "scrape_luma_event_body env = Some b" "completion b = Raised e" for b
    unfolding scrape_luma_event_def using that by (simp add: handle_exceptions_caught)
  have early: "scrape_luma_event env =
        Some \<lparr>completion = Returned None, csv_file = None,
              error_line = Some (''An error occurred: '' @ exception_str e)\<rparr>"
    if "is_Exception e" "before_export env = Some (Inl e)"
    using caught[OF that(1) body_raised_before_export[OF that(2)]] by simp
  have no_file: "\<exists>out. scrape_luma_event env = Some out \<and> csv_file out = None"
    if "before_export env = Some (Inl e)"
    unfolding scrape_luma_event_def handle_exceptions_def
    using body_raised_before_export[OF that] by simp
  from caught early no_file show ?thesis by blast
qed

theorem guard_catches_exceptions_witness:
  "is_Exception (DriverError ''Timeout 30000ms exceeded.'') \<and>
   before_export (sample_env\<lparr>event_page := Inl (DriverError ''Timeout 30000ms exceeded.'')\<rparr>) =
     Some (Inl (DriverError ''Timeout 30000ms exceeded.'')) \<and>
   scrape_luma_event_body
       (sample_env\<lparr>event_page := Inl (DriverError ''Timeout 30000ms exceeded.'')\<rparr>) =
     Some \<lparr>completion = Raised (DriverError ''Timeout 30000ms exceeded.''), csv_file = None,
           error_line = None\<rparr> \<and>
   scrape_luma_event (sample_env\<lparr>event_page := Inl (DriverError ''Timeout 30000ms exceeded.'')\<rparr>) =
     Some \<lparr>completion = Returned None, csv_file = None,
           error_line = Some ''An error occurred: Timeout 30000ms exceeded.''\<rparr>"
proof -
  have early: "before_export
      (sample_env\<lparr>event_page := Inl (DriverError ''Timeout 30000ms exceeded.'')\<rparr>) =
     Some (Inl (DriverError ''Timeout 30000ms exceeded.''))"
    by (simp add: before_export_def)
  then have body: "scrape_luma_event_body
       (sample_env\<lparr>event_page := Inl (DriverError ''Timeout 30000ms exceeded.'')\<rparr>) =
     Some \<lparr>completion = Raised (DriverError ''Timeout 30000ms exceeded.''), csv_file = None,
           error_line = None\<rparr>"
    by (simp add: scrape_luma_event_body_def)
  from guard_catches_exceptions
    [of "DriverError ''Timeout 30000ms exceeded.''"
        "sample_env\<lparr>event_page := Inl (DriverError ''Timeout 30000ms exceeded.'')\<rparr>"
        "\<lparr>completion = Raised (DriverError ''Timeout 30000ms exceeded.''), csv_file = None,
          error_line = None\<rparr>"]
    early body
  show ?thesis by simp
qed

text \<open>
  The claim as worded, for every exception, fails: a \<open>KeyboardInterrupt\<close> raised inside the
  run is not an instance of \<open>Exception\<close>; it passes through the guard, which prints nothing
  and does not return.
\<close>

theorem guard_counterexample:
  "scrape_luma_event (sample_env\<lparr>event_page := Inl KeyboardInterrupt\<rparr>) =
     Some \<lparr>completion = Raised KeyboardInterrupt, csv_file = None, error_line = None\<rparr>"
  by (simp add: scrape_luma_event_def handle_exceptions_def scrape_luma_event_body_def
      before_export_def)

text \<open>
  C10. An entry whose name text is empty or consists only of whitespace code points is not
  skipped: it contains no \<open>@\<close>, the split gives no token, taking the first token raises
  \<open>IndexError\<close>, and the run, once the event page is read and the loading loop has ended,
  ends in the guard, which prints the error and returns \<open>None\<close>; no CSV file is written.
\<close>

theorem blank_name_aborts_run:
  assumes "\<forall>c\<in>set (name_text e). c \<in> whitespace_codepoints"
    and "event_page env = Inr md"
    and "loading_loop (count_signal env) 0 initial_state = Some rc"
    and "guest_entries env = es @ e # es'"
  shows "of_char (CHR ''@'') \<notin> set (name_text e) \<and>
         split_whitespace 1 (name_text e) = [] \<and>
         extract_entry (unicode_tables env) e = Inl IndexError \<and>
         scrape_luma_event env =
           Some \<lparr>completion = Returned None, csv_file = None,
                 error_line = Some ''An error occurred: list index out of range''\<rparr>"
proof -
  from assms(1) have blank: "\<forall>c\<in>set (name_text e). isspace c"
    unfolding isspace_eq .
  from blank at_sign_not_space have "64 \<notin> set (name_text e)" by blast
  then have no_at: "of_char (CHR ''@'') \<notin> set (name_text e)" by simp
  have no_token: "split_whitespace 1 (name_text e) = []"
    using blank by (rule split_whitespace_blank)
  have raised: "extract_entry (unicode_tables env) e = Inl IndexError"
    using blank by (rule extract_entry_blank)
  have "before_export env = Some (Inl IndexError)"
    using assms(2,3,4) blank by (rule before_export_blank)
  then have "scrape_luma_event_body env =
      Some \<lparr>completion = Raised IndexError, csv_file = None, error_line = None\<rparr>"
    by (rule body_raised_before_export)
  then have "scrape_luma_event env =
           Some \<lparr>completion = Returned None, csv_file = None,
                 error_line = Some ''An error occurred: list index out of range''\<rparr>"
    unfolding scrape_luma_event_def
    using handle_exceptions_caught[of scrape_luma_event_body env _ IndexError] by simp
  with no_at no_token raised show ?thesis by blast
qed

theorem blank_name_aborts_run_witness:
  "set (name_text \<lparr>name_text = [0x20, 0xA0, 0x09, 0x3000], href = Some ''/user/usr-4''\<rparr>)
     \<subseteq> whitespace_codepoints \<and>
   extract_entry latin1_tables
     \<lparr>name_text = [0x20, 0xA0, 0x09, 0x3000], href = Some ''/user/usr-4''\<rparr> = Inl IndexError \<and>
   scrape_luma_event
     (sample_env\<lparr>guest_entries :=
        [\<lparr>name_text = text_of ''Jane Doe'', href = Some ''/user/usr-1''\<rparr>] @
        \<lparr>name_text = [0x20, 0xA0, 0x09, 0x3000], href = Some ''/user/usr-4''\<rparr> #
        [\<lparr>name_text = text_of ''Madonna'', href = Some ''/user/usr-3''\<rparr>]\<rparr>) =
     Some \<lparr>completion = Returned None, csv_file = None,
           error_line = Some ''An error occurred: list index out of range''\<rparr> \<and>
   scrape_luma_event
     (sample_env\<lparr>guest_entries := [] @ \<lparr>name_text = [], href = None\<rparr> # []\<rparr>) =
     Some \<lparr>completion = Returned None, csv_file = None,
           error_line = Some ''An error occurred: list index out of range''\<rparr>"
proof -
  have blank: "\<forall>c\<in>set (name_text \<lparr>name_text = [0x20, 0xA0, 0x09, 0x3000],
      href = Some ''/user/usr-4''\<rparr>). c \<in> whitespace_codepoints"
    by simp
  have empty: "\<forall>c\<in>set (name_text \<lparr>name_text = [], href = None\<rparr>).
      c \<in> whitespace_codepoints"
    by simp
  have page: "event_page (sample_env\<lparr>guest_entries := gs\<rparr>) = Inr sample_metadata" for gs
    by (simp add: sample_env_def)
  have loop: "loading_loop (count_signal (sample_env\<lparr>guest_entries := gs\<rparr>)) 0 initial_state =
      Some (4, 2)" for gs
    by (simp add: sample_env_def sample_loop)
  have entries: "guest_entries (sample_env\<lparr>guest_entries := gs\<rparr>) = gs" for gs
    by simp
  have tables: "unicode_tables (sample_env\<lparr>guest_entries := gs\<rparr>) = latin1_tables" for gs
    by (simp add: sample_env_def)
  from blank_name_aborts_run
      [OF blank page loop
        entries
          [of "[\<lparr>name_text = text_of ''Jane Doe'', href = Some ''/user/usr-1''\<rparr>] @
               \<lparr>name_text = [0x20, 0xA0, 0x09, 0x3000], href = Some ''/user/usr-4''\<rparr> #
               [\<lparr>name_text = text_of ''Madonna'', href = Some ''/user/usr-3''\<rparr>]"]]
    blank_name_aborts_run
      [OF empty page loop entries[of "[] @ \<lparr>name_text = [], href = None\<rparr> # []"]]
    blank tables
  show ?thesis by simp
qed

end
